theory Spec2Isabelle
  imports Complex_Main "HOL-Library.Sublist" "HOL-Library.Word"
begin

section \<open>Overview\<close>

text \<open>
  A shallow embedding of the waveform pipeline of the audio-marker application and of the
  code around it:
  \<^item> the two variants of \<^verbatim>\<open>generatePeaks\<close> in \<^verbatim>\<open>src/lib/peaks.ts\<close> (raw PCM decoded by ffmpeg,
    extrema pairs computed by audiowaveform);
  \<^item> the \<^verbatim>\<open>fetch\<close> listener of the service worker and its four request classifiers;
  \<^item> the handlers \<^verbatim>\<open>GET /api/audio/[audioId]/peaks\<close> and \<^verbatim>\<open>POST /api/upload\<close>;
  \<^item> \<^verbatim>\<open>replaceWithCbrMp3\<close> in \<^verbatim>\<open>src/lib/audioReencode.ts\<close>.

  Conventions. Finite JavaScript numbers are exact reals and arrays are lists of any
  length, so floating-point rounding and the limits of the runtime are outside the model.
  Loops are recursive functions with a termination proof. What an awaited call returns
  (the session, the database, the file system, the network, the external tools) is an
  input of the model, and a rejected promise is a value of its own, so that every
  \<^verbatim>\<open>try\<close>/\<^verbatim>\<open>catch\<close> and every early \<^verbatim>\<open>return\<close> of a handler is a branch of its definition.
  The definitions come first, the properties after them.
\<close>


section \<open>JavaScript numbers and array reads\<close>

text \<open>
  The peak pipeline computes on JavaScript numbers. Finite numbers are modelled as exact
  reals (no floating-point rounding), arrays as unbounded lists. The three non-finite
  numbers are kept as values of their own, because the code can produce them:
  reading an array past its end gives \<^verbatim>\<open>undefined\<close>, and \<^verbatim>\<open>Math.abs(undefined)\<close> is
  \<^verbatim>\<open>NaN\<close>; a division by zero gives an infinity or \<^verbatim>\<open>NaN\<close>.
\<close>

datatype number = Finite real | PosInfinity | NegInfinity | NaN

text \<open>\<^verbatim>\<open>xs[i]\<close>: the element, or \<^verbatim>\<open>undefined\<close> (here \<open>None\<close>) when \<open>i\<close> is out of range.\<close>

definition array_get :: "'a list \<Rightarrow> nat \<Rightarrow> 'a option" where
  "array_get xs i = (if i < length xs then Some (xs ! i) else None)"

text \<open>\<^verbatim>\<open>Math.abs\<close> applied to an array read of finite numbers.\<close>

fun Math_abs :: "real option \<Rightarrow> number" where
  "Math_abs None = NaN"
| "Math_abs (Some x) = Finite \<bar>x\<bar>"

text \<open>\<^verbatim>\<open>Math.max(a, b)\<close>: \<^verbatim>\<open>NaN\<close> as soon as one argument is \<^verbatim>\<open>NaN\<close>.\<close>

fun Math_max :: "number \<Rightarrow> number \<Rightarrow> number" where
  "Math_max NaN _ = NaN"
| "Math_max _ NaN = NaN"
| "Math_max PosInfinity _ = PosInfinity"
| "Math_max _ PosInfinity = PosInfinity"
| "Math_max NegInfinity b = b"
| "Math_max a NegInfinity = a"
| "Math_max (Finite a) (Finite b) = Finite (max a b)"

text \<open>\<^verbatim>\<open>a / b\<close> on finite operands.\<close>

definition js_divide :: "real \<Rightarrow> real \<Rightarrow> number" where
  "js_divide a b =
     (if b \<noteq> 0 then Finite (a / b)
      else if a = 0 then NaN
      else if a > 0 then PosInfinity else NegInfinity)"

text \<open>\<^verbatim>\<open>x / c\<close> and \<^verbatim>\<open>x * c\<close> for a positive constant \<open>c\<close>.\<close>

fun div_const :: "number \<Rightarrow> real \<Rightarrow> number" where
  "div_const (Finite x) c = Finite (x / c)"
| "div_const n c = n"

fun mul_const :: "number \<Rightarrow> real \<Rightarrow> number" where
  "mul_const (Finite x) c = Finite (x * c)"
| "mul_const n c = n"

text \<open>\<^verbatim>\<open>Math.round\<close>: the nearest integer, a half rounded towards plus infinity.\<close>

fun Math_round :: "number \<Rightarrow> number" where
  "Math_round (Finite x) = Finite (of_int \<lfloor>x + 1 / 2\<rfloor>)"
| "Math_round n = n"

text \<open>The quantisation both variants apply: \<^verbatim>\<open>Math.round(x * 10000) / 10000\<close>.\<close>

definition round4 :: "number \<Rightarrow> number" where
  "round4 x = div_const (Math_round (mul_const x 10000)) 10000"

section \<open>The peaks artifact\<close>

text \<open>The interface \<^verbatim>\<open>PeaksData\<close> of \<^verbatim>\<open>src/lib/peaks.ts\<close>; its field \<^verbatim>\<open>length\<close> is \<open>length_field\<close> here.\<close>

record PeaksData =
  peaks :: "number list"
  duration :: number
  sampleRate :: nat
  length_field :: nat

section \<open>Peak extraction from raw PCM (ffmpeg variant)\<close>

definition PEAKS_PER_SECOND_ffmpeg :: nat where
  "PEAKS_PER_SECOND_ffmpeg = 100"

text \<open>
  The inner loop of \<^verbatim>\<open>generatePeaks\<close>:
  \<^verbatim>\<open>for (let j = start; j < end; j++) { const abs = Math.abs(samples[j]!); if (abs > max) max = abs; }\<close>
  A comparison with \<^verbatim>\<open>NaN\<close> is false, so an out-of-range read would leave \<open>max\<close> as it is.
\<close>

function scan_bucket :: "real list \<Rightarrow> nat \<Rightarrow> nat \<Rightarrow> real \<Rightarrow> real" where
  "scan_bucket samples j end_j mx =
     (if j < end_j
      then scan_bucket samples (Suc j) end_j
             (case Math_abs (array_get samples j) of
                Finite a \<Rightarrow> if a > mx then a else mx
              | _ \<Rightarrow> mx)
      else mx)"
  by pat_completeness auto
termination
  by (relation "measure (\<lambda>(samples, j, end_j, mx). end_j - j)") auto

text \<open>
  The outer loop: \<^verbatim>\<open>for (let i = 0; i < totalPeaks; i++) { ...; peaks[i] = Math.round(max * 10000) / 10000; }\<close>
  over the array \<^verbatim>\<open>new Array(totalPeaks)\<close>.
\<close>

function fill_peaks :: "real list \<Rightarrow> nat \<Rightarrow> nat \<Rightarrow> nat \<Rightarrow> number list \<Rightarrow> number list" where
  "fill_peaks samples totalPeaks samplesPerPeak i pks =
     (if i < totalPeaks
      then (let start = i * samplesPerPeak;
                end_j = min (start + samplesPerPeak) (length samples);
                mx = scan_bucket samples start end_j 0
            in fill_peaks samples totalPeaks samplesPerPeak (Suc i)
                 (pks[i := round4 (Finite mx)]))
      else pks)"
  by pat_completeness auto
termination
  by (relation "measure (\<lambda>(samples, totalPeaks, samplesPerPeak, i, pks). totalPeaks - i)") auto

text \<open>
  \<^verbatim>\<open>generatePeaks\<close> of the ffmpeg variant, from the probed duration (which
  \<^verbatim>\<open>getAudioDuration\<close> only resolves when it is positive) and the decoded samples (the
  elements of the \<^verbatim>\<open>Float32Array\<close>, taken to be finite).
  The fresh array \<^verbatim>\<open>new Array(totalPeaks)\<close> has \<open>totalPeaks\<close> unset slots, written here as
  \<open>NaN\<close>; the loop assigns every one of them.
\<close>

definition generatePeaks_ffmpeg :: "real \<Rightarrow> real list \<Rightarrow> PeaksData" where
  "generatePeaks_ffmpeg dur samples =
     (let totalPeaks = nat \<lceil>dur * real PEAKS_PER_SECOND_ffmpeg\<rceil>;
          samplesPerPeak = max 1 (nat \<lfloor>real (length samples) / real totalPeaks\<rfloor>);
          pks = fill_peaks samples totalPeaks samplesPerPeak 0 (replicate totalPeaks NaN)
      in \<lparr> peaks = pks, duration = Finite dur,
           sampleRate = PEAKS_PER_SECOND_ffmpeg, length_field = length pks \<rparr>)"

section \<open>Peak extraction from extrema pairs (audiowaveform variant)\<close>

definition PEAKS_PER_SECOND_audiowaveform :: nat where
  "PEAKS_PER_SECOND_audiowaveform = 50"

text \<open>
  The interface \<^verbatim>\<open>AudiowaveformData\<close>: the parsed JSON output of the tool. Its numbers are
  finite (JSON has no other); its field \<^verbatim>\<open>length\<close> is \<open>waveform_length\<close> here.
\<close>

record AudiowaveformData =
  version :: real
  channels :: real
  sample_rate :: real
  samples_per_pixel :: real
  bits :: real
  waveform_length :: real
  data :: "real list"

text \<open>
  The loop of \<^verbatim>\<open>generatePeaks\<close>:
  \<^verbatim>\<open>for (let i = 0; i < waveformData.data.length; i += 2) {
    const min = Math.abs(waveformData.data[i]!);
    const max = Math.abs(waveformData.data[i + 1]!);
    const peak = Math.max(min, max);
    const normalized = peak / 128.0;
    peaks.push(Math.round(normalized * 10000) / 10000); }\<close>
  The condition only guards index \<open>i\<close>; the read at \<open>i + 1\<close> goes through \<open>array_get\<close>.
\<close>

function collect_pairs :: "real list \<Rightarrow> nat \<Rightarrow> number list \<Rightarrow> number list" where
  "collect_pairs dat i pks =
     (if i < length dat
      then (let mn = Math_abs (array_get dat i);
                mx = Math_abs (array_get dat (i + 1));
                peak = Math_max mn mx;
                normalized = div_const peak 128
            in collect_pairs dat (i + 2) (pks @ [round4 normalized]))
      else pks)"
  by pat_completeness auto
termination
  by (relation "measure (\<lambda>(dat, i, pks). length dat - i)") auto

text \<open>
  \<^verbatim>\<open>generatePeaks\<close> of the audiowaveform variant, from the tool output that
  \<^verbatim>\<open>generateWaveformData\<close> resolved with (it rejects an empty \<open>data\<close> array).
\<close>

definition generatePeaks_audiowaveform :: "AudiowaveformData \<Rightarrow> PeaksData" where
  "generatePeaks_audiowaveform waveformData =
     (let pks = collect_pairs (data waveformData) 0 [];
          dur = js_divide (waveform_length waveformData) (sample_rate waveformData)
      in \<lparr> peaks = pks, duration = dur,
           sampleRate = PEAKS_PER_SECOND_audiowaveform, length_field = length pks \<rparr>)"

text \<open>Predicates on the numbers of an artifact.\<close>

fun in_unit_interval :: "number \<Rightarrow> bool" where
  "in_unit_interval (Finite x) = (0 \<le> x \<and> x \<le> 1)"
| "in_unit_interval _ = False"

fun multiple_of_1e4 :: "number \<Rightarrow> bool" where
  "multiple_of_1e4 (Finite x) = (of_int \<lfloor>x * 10000\<rfloor> = x * 10000)"
| "multiple_of_1e4 _ = False"

declare scan_bucket.simps [simp del] fill_peaks.simps [simp del] collect_pairs.simps [simp del]

text \<open>
  The bucket value as the specification words it: the maximum absolute sample value over
  the window \<open>[i * samplesPerPeak, min ((i + 1) * samplesPerPeak) totalSampleCount)\<close>,
  and 0 for an empty window.
\<close>

definition spec_window_max :: "real list \<Rightarrow> nat \<Rightarrow> nat \<Rightarrow> real" where
  "spec_window_max samples samplesPerPeak i =
     (let lo = i * samplesPerPeak;
          hi = min ((i + 1) * samplesPerPeak) (length samples)
      in if hi \<le> lo then 0 else Max ((\<lambda>j. \<bar>samples ! j\<bar>) ` {lo..<hi}))"

text \<open>The value the two loops store for bucket \<open>k\<close>, as closed expressions of the input.\<close>

definition bucket_value :: "real list \<Rightarrow> nat \<Rightarrow> nat \<Rightarrow> number" where
  "bucket_value samples samplesPerPeak k =
     round4 (Finite (scan_bucket samples (k * samplesPerPeak)
                       (min (k * samplesPerPeak + samplesPerPeak) (length samples)) 0))"

definition pair_peak :: "real list \<Rightarrow> nat \<Rightarrow> number" where
  "pair_peak dat k =
     round4 (div_const (Math_max (Math_abs (array_get dat (2 * k)))
                                 (Math_abs (array_get dat (2 * k + 1)))) 128)"

section \<open>Strings\<close>

text \<open>
  JavaScript string methods on \<open>string\<close>: \<^verbatim>\<open>s.startsWith(p)\<close> is \<open>prefix p s\<close> and
  \<^verbatim>\<open>s.endsWith(p)\<close> is \<open>suffix p s\<close>. \<^verbatim>\<open>toLowerCase\<close> is modelled on ASCII letters.
\<close>

fun includes_str :: "string \<Rightarrow> string \<Rightarrow> bool" where
  "includes_str [] sub = (sub = [])"
| "includes_str (c # cs) sub = (prefix sub (c # cs) \<or> includes_str cs sub)"

definition toLowerCase_char :: "char \<Rightarrow> char" where
  "toLowerCase_char c =
     (let n = (of_char c :: nat) in if 65 \<le> n \<and> n \<le> 90 then char_of (n + 32) else c)"

definition toLowerCase :: "string \<Rightarrow> string" where
  "toLowerCase s = map toLowerCase_char s"

section \<open>The service worker\<close>

text \<open>
  The requests, responses and caches the service worker sees. A request carries its parsed
  URL (\<^verbatim>\<open>new URL(request.url)\<close>) and its \<^verbatim>\<open>accept\<close> header; a cache is an association list
  from request URL to response, the cache storage an association list from cache name to
  cache, in the order of creation.
\<close>

record URL =
  protocol :: string
  host :: string
  pathname :: string
  search :: string

record Request =
  request_method :: string
  request_url :: URL
  accept :: "string option"

record Response =
  status :: nat
  body :: string

type_synonym Cache = "(URL \<times> Response) list"
type_synonym CacheStorage = "(string \<times> Cache) list"

definition CACHE_NAME :: string where
  "CACHE_NAME = ''audio-marker-v1''"

definition AUDIO_CACHE_NAME :: string where
  "AUDIO_CACHE_NAME = ''audio-marker-audio-v1''"

definition STATIC_CACHE_NAME :: string where
  "STATIC_CACHE_NAME = ''audio-marker-static-v1''"

text \<open>
  \<^verbatim>\<open>AUDIO_API_REGEX = /^\/api\/audio\/[^\/]+\/file$/\<close>: the path is \<^verbatim>\<open>/api/audio/\<close>, one
  non-empty segment without a slash, and \<^verbatim>\<open>/file\<close>.
\<close>

definition matches_AUDIO_API_REGEX :: "string \<Rightarrow> bool" where
  "matches_AUDIO_API_REGEX p =
     (prefix ''/api/audio/'' p \<and> suffix ''/file'' p \<and> 17 \<le> length p \<and>
      CHR ''/'' \<notin> set (take (length p - 16) (drop 11 p)))"

text \<open>\<^verbatim>\<open>cache.match(request)\<close>, \<^verbatim>\<open>cache.put(request, response)\<close>.\<close>

definition cache_match :: "Cache \<Rightarrow> Request \<Rightarrow> Response option" where
  "cache_match c req = map_of c (request_url req)"

definition cache_put :: "Cache \<Rightarrow> Request \<Rightarrow> Response \<Rightarrow> Cache" where
  "cache_put c req resp =
     (request_url req, resp) # filter (\<lambda>e. fst e \<noteq> request_url req) c"

text \<open>
  \<^verbatim>\<open>caches.open(name)\<close> creates the cache when there is none of that name;
  \<^verbatim>\<open>caches.match(request)\<close> looks through all caches in the order of their creation.
\<close>

definition caches_open :: "string \<Rightarrow> CacheStorage \<Rightarrow> CacheStorage" where
  "caches_open name cs = (if name \<in> fst ` set cs then cs else cs @ [(name, [])])"

definition cache_named :: "string \<Rightarrow> CacheStorage \<Rightarrow> Cache" where
  "cache_named name cs = (case map_of cs name of Some c \<Rightarrow> c | None \<Rightarrow> [])"

fun caches_match :: "CacheStorage \<Rightarrow> Request \<Rightarrow> Response option" where
  "caches_match [] req = None"
| "caches_match ((name, c) # cs) req =
     (case cache_match c req of Some r \<Rightarrow> Some r | None \<Rightarrow> caches_match cs req)"

text \<open>\<^verbatim>\<open>caches.open(name).then((cache) => { cache.put(request, responseClone); })\<close>\<close>

definition open_and_put :: "string \<Rightarrow> Request \<Rightarrow> Response \<Rightarrow> CacheStorage \<Rightarrow> CacheStorage" where
  "open_and_put name req resp cs =
     map (\<lambda>(n, c). if n = name then (n, cache_put c req resp) else (n, c)) (caches_open name cs)"

text \<open>The four classifiers, in the order of the source file.\<close>

definition isAudioRequest :: "Request \<Rightarrow> bool" where
  "isAudioRequest request =
     (let audioExtensions = [''.mp3'', ''.wav'', ''.ogg'', ''.m4a'', ''.aac'', ''.flac'', ''.webm''];
          pathname = toLowerCase (pathname (request_url request))
      in if matches_AUDIO_API_REGEX pathname then True
         else if list_ex (\<lambda>ext. suffix ext pathname) audioExtensions then True
         else (case accept request of
                 Some contentType \<Rightarrow> if includes_str contentType ''audio/'' then True else False
               | None \<Rightarrow> False))"

definition isStaticAsset :: "Request \<Rightarrow> bool" where
  "isStaticAsset request =
     (let staticExtensions = [''.css'', ''.js'', ''.png'', ''.jpg'', ''.jpeg'', ''.svg'', ''.ico'',
                              ''.woff'', ''.woff2'', ''.ttf''];
          pathname = toLowerCase (pathname (request_url request))
      in list_ex (\<lambda>ext. suffix ext pathname) staticExtensions)"

definition isApiRequest :: "Request \<Rightarrow> bool" where
  "isApiRequest request =
     (if matches_AUDIO_API_REGEX (pathname (request_url request)) then False
      else if prefix ''/api/auth/'' (pathname (request_url request)) then False
      else prefix ''/api/'' (pathname (request_url request)))"

definition isAuthRequest :: "Request \<Rightarrow> bool" where
  "isAuthRequest request = prefix ''/api/auth/'' (pathname (request_url request))"

text \<open>
  What the \<^verbatim>\<open>fetch\<close> listener does with an event: it returns without
  \<^verbatim>\<open>event.respondWith\<close> (the browser then handles the request itself), or it responds with
  a promise that resolves to a response or rejects (\<open>None\<close>).
\<close>

datatype Outcome = NotIntercepted | RespondWith "Response option"

text \<open>
  The network-first strategy of the last two branches (they differ in nothing but the
  branch condition): fetch, store a response of status 200 in \<^verbatim>\<open>CACHE_NAME\<close>; when the fetch
  rejects, answer from any cache, or with a synthetic 503.
\<close>

definition network_first :: "(Request \<Rightarrow> Response option) \<Rightarrow> CacheStorage \<Rightarrow> Request \<Rightarrow> Outcome \<times> CacheStorage" where
  "network_first fetch cs request =
     (case fetch request of
        Some networkResponse \<Rightarrow>
          (RespondWith (Some networkResponse),
           if status networkResponse = 200 then open_and_put CACHE_NAME request networkResponse cs else cs)
      | None \<Rightarrow>
          (case caches_match cs request of
             Some cachedResponse \<Rightarrow> (RespondWith (Some cachedResponse), cs)
           | None \<Rightarrow> (RespondWith (Some \<lparr> status = 503, body = ''Network error'' \<rparr>), cs)))"

text \<open>
  The \<^verbatim>\<open>fetch\<close> listener, from the production flag, the network (\<open>fetch\<close>: the response, or
  \<open>None\<close> when the fetch rejects), the cache storage and the request, to the outcome and
  the cache storage afterwards. The branches are in the order of the source: audio, static,
  auth, API, default.
\<close>

definition fetch_listener :: "bool \<Rightarrow> (Request \<Rightarrow> Response option) \<Rightarrow> CacheStorage \<Rightarrow> Request \<Rightarrow> Outcome \<times> CacheStorage" where
  "fetch_listener isProduction fetch cs request =
     (if request_method request \<noteq> ''GET'' then (NotIntercepted, cs)
      else if \<not> prefix ''http'' (protocol (request_url request)) then (NotIntercepted, cs)
      else if \<not> isProduction then (RespondWith (fetch request), cs)
      else if isAudioRequest request then
        (let cs1 = caches_open AUDIO_CACHE_NAME cs
         in case cache_match (cache_named AUDIO_CACHE_NAME cs1) request of
              Some cachedResponse \<Rightarrow> (RespondWith (Some cachedResponse), cs1)
            | None \<Rightarrow>
                (case fetch request of
                   Some networkResponse \<Rightarrow>
                     (RespondWith (Some networkResponse),
                      if status networkResponse = 200
                      then open_and_put AUDIO_CACHE_NAME request networkResponse cs1 else cs1)
                 | None \<Rightarrow> (RespondWith None, cs1)))
      else if isStaticAsset request then
        (case caches_match cs request of
           Some cachedResponse \<Rightarrow> (RespondWith (Some cachedResponse), cs)
         | None \<Rightarrow>
             (case fetch request of
                Some networkResponse \<Rightarrow>
                  (RespondWith (Some networkResponse),
                   if status networkResponse = 200
                   then open_and_put STATIC_CACHE_NAME request networkResponse cs else cs)
              | None \<Rightarrow> (RespondWith None, cs)))
      else if isAuthRequest request then (RespondWith (fetch request), cs)
      else if isApiRequest request then network_first fetch cs request
      else network_first fetch cs request)"


section \<open>Paths\<close>

text \<open>
  The functions of Node's \<^verbatim>\<open>path\<close> module the code uses, on normalised POSIX paths (no
  \<^verbatim>\<open>.\<close> or \<^verbatim>\<open>..\<close> segment, no doubled or trailing separator). \<^verbatim>\<open>path.extname\<close>: from
  the last \<^verbatim>\<open>.\<close> of the last portion of the path to its end; empty when there is no
  \<^verbatim>\<open>.\<close> in it, or none but its first character, or when the portion is \<^verbatim>\<open>..\<close> itself.
\<close>

definition path_basename :: "string \<Rightarrow> string" where
  "path_basename p = rev (takeWhile (\<lambda>c. c \<noteq> CHR ''/'') (rev p))"

definition path_extname :: "string \<Rightarrow> string" where
  "path_extname p =
     (let b = path_basename p
      in if b = ''..'' \<or> CHR ''.'' \<notin> set (tl b) then []
         else CHR ''.'' # rev (takeWhile (\<lambda>c. c \<noteq> CHR ''.'') (rev b)))"

definition path_dirname :: "string \<Rightarrow> string" where
  "path_dirname p =
     (let pre = take (length p - length (path_basename p)) p
      in if pre = [] then [] else if pre = ''/'' then ''/'' else butlast pre)"

record ParsedPath =
  parsed_dir :: string
  parsed_name :: string
  parsed_ext :: string

definition path_parse :: "string \<Rightarrow> ParsedPath" where
  "path_parse p =
     (let b = path_basename p; e = path_extname p
      in \<lparr> parsed_dir = path_dirname p,
           parsed_name = take (length b - length e) b,
           parsed_ext = e \<rparr>)"

definition path_join :: "string \<Rightarrow> string \<Rightarrow> string" where
  "path_join d f = (if d = [] then f else if last d = CHR ''/'' then d @ f else d @ ''/'' @ f)"

section \<open>Awaited calls\<close>

text \<open>
  The routes await calls whose results the environment decides (the session, the database,
  the file system, the external tools). An awaited call resolves with a value or rejects;
  a rejection is an exception at the \<^verbatim>\<open>await\<close>.
\<close>

datatype 'a awaited = Rejected | Resolved 'a

record User =
  user_id :: string

record Session =
  user :: "User option"

text \<open>A response of a route: the status, the body and the headers.\<close>

datatype response_body = Text string | ErrorJson string | SuccessJson bool string

record NextResponse =
  http_status :: nat
  content :: response_body
  headers :: "(string \<times> string) list"

section \<open>The peaks endpoint\<close>

text \<open>The columns that \<^verbatim>\<open>db.audio.findUnique\<close> selects.\<close>

record AudioAccess =
  filePath :: string
  isPublic :: bool
  createdById :: string

text \<open>
  What \<^verbatim>\<open>GET /api/audio/[audioId]/peaks\<close> finds when it runs: the results of \<^verbatim>\<open>auth()\<close> and
  of \<^verbatim>\<open>db.audio.findUnique\<close>, the policy flag, whether \<^verbatim>\<open>stat\<close> finds the peaks file and
  the audio file, whether \<^verbatim>\<open>generateAndSavePeaks\<close> succeeds, and the result of \<^verbatim>\<open>readFile\<close>.
\<close>

record peaks_env =
  auth_result :: "Session option awaited"
  findUnique_result :: "AudioAccess option awaited"
  REQUIRE_AUTH_FOR_PUBLIC_CONTENT :: bool
  peaks_file_exists :: bool
  audio_file_exists :: bool
  generate_ok :: bool
  readFile_result :: "string awaited"

text \<open>\<^verbatim>\<open>session?.user?.id === audio.createdById\<close>\<close>

definition isCreator :: "Session option \<Rightarrow> string \<Rightarrow> bool" where
  "isCreator session owner =
     (case session of
        None \<Rightarrow> False
      | Some s \<Rightarrow> (case user s of None \<Rightarrow> False | Some u \<Rightarrow> user_id u = owner))"

definition text_response :: "string \<Rightarrow> nat \<Rightarrow> NextResponse" where
  "text_response msg st = \<lparr> http_status = st, content = Text msg, headers = [] \<rparr>"

text \<open>The end of the handler: \<^verbatim>\<open>readFile\<close>, then the 200 response; a rejection goes to the outer \<^verbatim>\<open>catch\<close>.\<close>

definition serve_peaks :: "peaks_env \<Rightarrow> NextResponse" where
  "serve_peaks env =
     (case readFile_result env of
        Rejected \<Rightarrow> text_response ''Internal Server Error'' 500
      | Resolved fileBuffer \<Rightarrow>
          \<lparr> http_status = 200, content = Text fileBuffer,
            headers = [(''Content-Type'', ''application/json''),
                       (''Cache-Control'', ''public, max-age=31536000, immutable'')] \<rparr>)"

definition GET_peaks :: "peaks_env \<Rightarrow> NextResponse" where
  "GET_peaks env =
     (case auth_result env of
        Rejected \<Rightarrow> text_response ''Internal Server Error'' 500
      | Resolved session \<Rightarrow>
     (case findUnique_result env of
        Rejected \<Rightarrow> text_response ''Internal Server Error'' 500
      | Resolved None \<Rightarrow> text_response ''Audio not found'' 404
      | Resolved (Some audio) \<Rightarrow>
          (let hasAccess = (isPublic audio \<or> isCreator session (createdById audio))
           in if REQUIRE_AUTH_FOR_PUBLIC_CONTENT env \<and> session = None
              then text_response ''Authentication required'' 401
              else if \<not> hasAccess then text_response ''Forbidden'' 403
              else if peaks_file_exists env then serve_peaks env
              else if \<not> audio_file_exists env
              then text_response ''Audio file not found on disk'' 404
              else if \<not> generate_ok env then text_response ''Peak generation failed'' 500
              else serve_peaks env)))"

section \<open>The upload endpoint\<close>

type_synonym bytes = "8 word list"

record File =
  file_name :: string
  file_size :: nat
  file_bytes :: bytes

text \<open>The fields of the multipart form: \<^verbatim>\<open>formData.get\<close> gives \<^verbatim>\<open>null\<close> (\<open>None\<close>) for a missing one.\<close>

record FormData =
  form_name :: "string option"
  form_description :: "string option"
  form_file :: "File option"

text \<open>The row that \<^verbatim>\<open>db.audio.create\<close> is given.\<close>

record AudioRow =
  row_id :: string
  row_name :: string
  row_description :: "string option"
  row_originalFileName :: string
  row_filePath :: string
  row_createdById :: string

text \<open>
  What \<^verbatim>\<open>POST /api/upload\<close> finds when it runs: the session, the parsed form, the fresh
  identifier of \<^verbatim>\<open>uuidv4()\<close>, the working directory, and whether each of \<^verbatim>\<open>writeFile\<close>,
  \<^verbatim>\<open>replaceWithCbrMp3\<close>, \<^verbatim>\<open>generateAndSavePeaks\<close> and \<^verbatim>\<open>db.audio.create\<close> resolves
  (\<open>True\<close>) or rejects.
\<close>

record upload_env =
  upload_auth_result :: "Session option awaited"
  formData_result :: "FormData awaited"
  uuid :: string
  cwd :: string
  writeFile_ok :: bool
  replaceWithCbrMp3_ok :: bool
  generateAndSavePeaks_ok :: bool
  create_ok :: bool

text \<open>What the handler does to the world, in order.\<close>

datatype effect =
    WriteFile string bytes
  | ReplaceWithCbrMp3 string
  | GenerateAndSavePeaks string
  | CreateAudio AudioRow
  | ConsoleWarn string
  | ConsoleError string

definition json_response :: "response_body \<Rightarrow> nat \<Rightarrow> NextResponse" where
  "json_response b st = \<lparr> http_status = st, content = b, headers = [] \<rparr>"

text \<open>The outer \<^verbatim>\<open>catch\<close> of the handler.\<close>

definition upload_failed :: "effect list \<Rightarrow> NextResponse \<times> effect list" where
  "upload_failed done = (json_response (ErrorJson ''Upload failed'') 500,
                         done @ [ConsoleError ''File upload error:''])"

text \<open>\<^verbatim>\<open>!session?.user?.id\<close>: no session, no user, or an empty identifier.\<close>

definition session_user_id :: "Session option \<Rightarrow> string option" where
  "session_user_id session =
     (case session of
        None \<Rightarrow> None
      | Some s \<Rightarrow> (case user s of None \<Rightarrow> None
                   | Some u \<Rightarrow> if user_id u = [] then None else Some (user_id u)))"

definition maxSize :: nat where
  "maxSize = 50 * 1024 * 1024"

text \<open>
  The steps of \<^verbatim>\<open>POST\<close> after the validation: save the file, re-encode it and generate
  the peaks (each in its own \<^verbatim>\<open>try\<close>/\<^verbatim>\<open>catch\<close> that only warns), create the row.
\<close>

definition store_upload :: "upload_env \<Rightarrow> string \<Rightarrow> string \<Rightarrow> string option \<Rightarrow> File \<Rightarrow> string
    \<Rightarrow> NextResponse \<times> effect list" where
  "store_upload env userId name description file fileExtension =
     (let id = uuid env;
          outFileName = id @ fileExtension;
          filePath = path_join (path_join (path_join (cwd env) ''data'') ''uploads'') outFileName;
          e1 = [WriteFile filePath (file_bytes file)]
      in if \<not> writeFile_ok env then upload_failed e1
         else
          (let e2 = e1 @ [ReplaceWithCbrMp3 filePath] @
                    (if replaceWithCbrMp3_ok env then []
                     else [ConsoleWarn ''CBR re-encode failed (non-fatal):'']);
               e3 = e2 @ [GenerateAndSavePeaks filePath] @
                    (if generateAndSavePeaks_ok env then []
                     else [ConsoleWarn ''Peak generation failed (non-fatal):'']);
               audio = \<lparr> row_id = id, row_name = name, row_description = description,
                         row_originalFileName = file_name file, row_filePath = outFileName,
                         row_createdById = userId \<rparr>;
               e4 = e3 @ [CreateAudio audio]
           in if \<not> create_ok env then upload_failed e4
              else (json_response (SuccessJson True (row_id audio)) 200, e4)))"

definition POST_upload :: "upload_env \<Rightarrow> NextResponse \<times> effect list" where
  "POST_upload env =
     (case upload_auth_result env of
        Rejected \<Rightarrow> upload_failed []
      | Resolved session \<Rightarrow>
     (case session_user_id session of
        None \<Rightarrow> (json_response (ErrorJson ''Unauthorized'') 401, [])
      | Some userId \<Rightarrow>
     (case formData_result env of
        Rejected \<Rightarrow> upload_failed []
      | Resolved formData \<Rightarrow>
     (case (form_name formData, form_file formData) of
        (Some name, Some file) \<Rightarrow>
          if name = [] then (json_response (ErrorJson ''Name and file are required'') 400, [])
          else if file_size file > maxSize
          then (json_response (ErrorJson ''File size must be less than 50MB'') 400, [])
          else (let fileExtension = toLowerCase (path_extname (file_name file))
                in if fileExtension \<noteq> ''.mp3''
                   then (json_response (ErrorJson ''Only .mp3 files are allowed'') 400, [])
                   else store_upload env userId name (form_description formData) file fileExtension)
      | _ \<Rightarrow> (json_response (ErrorJson ''Name and file are required'') 400, [])))))"


section \<open>Re-encoding in place\<close>

text \<open>
  The file system is a map from paths to contents. \<^verbatim>\<open>unlink\<close> and \<^verbatim>\<open>readFile\<close> reject when
  there is no file at the path. The encoder is a parameter: from the contents at the input
  path (if any), the bitrate and the sample rate, \<^verbatim>\<open>ffmpeg\<close> either writes the output
  file, or fails with a message, leaving nothing or a partial file at the output path.
\<close>

type_synonym filesystem = "string \<rightharpoonup> bytes"

datatype encode_outcome = EncodeOk bytes | EncodeError string "bytes option"

datatype fs_op =
    FfmpegReencode string string
  | FsUnlink string
  | FsReadFile string
  | FsWriteFile string bytes

definition reencodeMp3ToCbr ::
    "(bytes option \<Rightarrow> nat \<Rightarrow> nat \<Rightarrow> encode_outcome) \<Rightarrow> filesystem \<Rightarrow> string \<Rightarrow> string \<Rightarrow> nat \<Rightarrow> nat
     \<Rightarrow> (string + unit) \<times> filesystem" where
  "reencodeMp3ToCbr ffmpeg fs inputPath outputPath bitrate sampleRateHz =
     (case ffmpeg (fs inputPath) bitrate sampleRateHz of
        EncodeOk encoded \<Rightarrow> (Inr (), fs(outputPath \<mapsto> encoded))
      | EncodeError msg partial \<Rightarrow>
          (Inl (''ffmpeg re-encode failed: '' @ msg),
           case partial of None \<Rightarrow> fs | Some b \<Rightarrow> fs(outputPath \<mapsto> b)))"

text \<open>
  The first two lines of \<^verbatim>\<open>replaceWithCbrMp3\<close>:
  \<^verbatim>\<open>const parsed = path.parse(filePath);
  const tempPath = path.join(parsed.dir, `${parsed.name}-cbr${parsed.ext}`);\<close>
\<close>

definition cbr_temp_path :: "string \<Rightarrow> string" where
  "cbr_temp_path file_path =
     (let parsed = path_parse file_path
      in path_join (parsed_dir parsed) (parsed_name parsed @ ''-cbr'' @ parsed_ext parsed))"

text \<open>
  \<^verbatim>\<open>replaceWithCbrMp3\<close>: the result (\<open>Inl\<close> the message of the rejection), the file system
  afterwards, and the operations it ran, in order.
\<close>

definition replaceWithCbrMp3 ::
    "(bytes option \<Rightarrow> nat \<Rightarrow> nat \<Rightarrow> encode_outcome) \<Rightarrow> filesystem \<Rightarrow> string \<Rightarrow> nat \<Rightarrow> nat
     \<Rightarrow> (string + unit) \<times> filesystem \<times> fs_op list" where
  "replaceWithCbrMp3 ffmpeg fs file_path bitrate sampleRateHz =
     (let tempPath = cbr_temp_path file_path;
          t1 = [FfmpegReencode file_path tempPath]
      in case reencodeMp3ToCbr ffmpeg fs file_path tempPath bitrate sampleRateHz of
           (Inl e, fs1) \<Rightarrow> (Inl e, fs1, t1)
         | (Inr _, fs1) \<Rightarrow>
             (let t2 = t1 @ [FsUnlink file_path]
              in if fs1 file_path = None then (Inl (''ENOENT: '' @ file_path), fs1, t2)
                 else
                  (let fs2 = fs1(file_path := None);
                       t3 = t2 @ [FsReadFile tempPath]
                   in case fs2 tempPath of
                        None \<Rightarrow> (Inl (''ENOENT: '' @ tempPath), fs2, t3)
                      | Some b \<Rightarrow>
                          (let fs3 = fs2(file_path \<mapsto> b);
                               t5 = t3 @ [FsWriteFile file_path b, FsUnlink tempPath]
                           in if fs3 tempPath = None then (Inl (''ENOENT: '' @ tempPath), fs3, t5)
                              else (Inr (), fs3(tempPath := None), t5)))))"


section \<open>Properties of the peak extraction\<close>

subsection \<open>The loops as closed expressions\<close>

lemma Max_insert_max:
  fixes x y :: real
  assumes "finite S"
  shows "Max (insert (max x y) S) = Max (insert x (insert y S))"
proof (cases "S = {}")
  case True
  then show ?thesis by (simp add: max.commute)
next
  case False
  with assms show ?thesis by (simp add: max.assoc max.commute max.left_commute)
qed

lemma scan_bucket_Max:
  "end_j \<le> length samples \<Longrightarrow>
   scan_bucket samples j end_j mx = Max (insert mx ((\<lambda>k. \<bar>samples ! k\<bar>) ` {j..<end_j}))"
proof (induction samples j end_j mx rule: scan_bucket.induct)
  case (1 samples j end_j mx)
  show ?case
  proof (cases "j < end_j")
    case False
    then show ?thesis by (subst scan_bucket.simps) simp
  next
    case True
    then have jl: "j < length samples" using "1.prems" by simp
    let ?a = "\<bar>samples ! j\<bar>"
    let ?S = "(\<lambda>k. \<bar>samples ! k\<bar>) ` {Suc j..<end_j}"
    have m: "(if ?a > mx then ?a else mx) = max mx ?a" by (simp add: max_def)
    have step: "scan_bucket samples j end_j mx = scan_bucket samples (Suc j) end_j (max mx ?a)"
      using True jl by (subst scan_bucket.simps) (simp add: array_get_def m)
    have ih: "scan_bucket samples (Suc j) end_j (max mx ?a) = Max (insert (max mx ?a) ?S)"
      using "1.IH"[OF True] "1.prems" jl by (simp add: array_get_def m)
    have set_eq: "{j..<end_j} = insert j {Suc j..<end_j}" using True by auto
    have "Max (insert (max mx ?a) ?S) = Max (insert mx (insert ?a ?S))"
      by (rule Max_insert_max) simp
    also have "insert ?a ?S = (\<lambda>k. \<bar>samples ! k\<bar>) ` {j..<end_j}"
      by (subst set_eq) simp
    finally show ?thesis using step ih by simp
  qed
qed

lemma scan_bucket_window:
  "scan_bucket samples (i * spp) (min (i * spp + spp) (length samples)) 0
     = spec_window_max samples spp i"
proof -
  let ?lo = "i * spp"
  let ?hi = "min (i * spp + spp) (length samples)"
  let ?S = "(\<lambda>k. \<bar>samples ! k\<bar>) ` {?lo..<?hi}"
  have sb: "scan_bucket samples ?lo ?hi 0 = Max (insert 0 ?S)"
    by (rule scan_bucket_Max) simp
  have sp: "spec_window_max samples spp i = (if ?hi \<le> ?lo then 0 else Max ?S)"
    by (simp add: spec_window_max_def Let_def add.commute)
  show ?thesis
  proof (cases "?hi \<le> ?lo")
    case True
    then have "?S = {}" by simp
    with sb sp True show ?thesis by simp
  next
    case False
    then have "?lo < ?hi" by linarith
    then have ne: "?S \<noteq> {}" by (simp del: min_less_iff_conj)
    have fin: "finite ?S" by simp
    have "\<exists>a \<in> ?S. 0 \<le> a" using ne by auto
    then have "0 \<le> Max ?S" using fin ne by (meson Max_ge_iff)
    then have "Max (insert 0 ?S) = Max ?S" using fin ne by (simp add: max_def)
    with sb sp False show ?thesis by simp
  qed
qed

lemma bucket_value_window:
  "bucket_value samples spp k = round4 (Finite (spec_window_max samples spp k))"
  by (simp add: bucket_value_def scan_bucket_window)

lemma fill_peaks_length:
  "length (fill_peaks samples totalPeaks spp i pks) = length pks"
proof (induction samples totalPeaks spp i pks rule: fill_peaks.induct)
  case (1 samples totalPeaks spp i pks)
  show ?case
  proof (cases "i < totalPeaks")
    case True
    then show ?thesis using "1.IH"[OF True refl refl refl]
      by (subst fill_peaks.simps) (simp add: Let_def)
  next
    case False
    then show ?thesis by (subst fill_peaks.simps) simp
  qed
qed

lemma fill_peaks_nth:
  "length pks = totalPeaks \<Longrightarrow> k < totalPeaks \<Longrightarrow>
   fill_peaks samples totalPeaks spp i pks ! k =
     (if i \<le> k then bucket_value samples spp k else pks ! k)"
proof (induction samples totalPeaks spp i pks rule: fill_peaks.induct)
  case (1 samples totalPeaks spp i pks)
  show ?case
  proof (cases "i < totalPeaks")
    case True
    let ?v = "bucket_value samples spp i"
    have step: "fill_peaks samples totalPeaks spp i pks
        = fill_peaks samples totalPeaks spp (Suc i) (pks[i := ?v])"
      using True by (subst fill_peaks.simps) (simp add: Let_def bucket_value_def)
    have ih: "fill_peaks samples totalPeaks spp (Suc i) (pks[i := ?v]) ! k =
        (if Suc i \<le> k then bucket_value samples spp k else (pks[i := ?v]) ! k)"
      using "1.IH"[OF True refl refl refl] "1.prems" by (simp add: bucket_value_def)
    show ?thesis
      using step ih "1.prems" True by (cases "k = i") (auto simp: nth_list_update)
  next
    case False
    then show ?thesis using "1.prems" by (subst fill_peaks.simps) simp
  qed
qed

lemma generatePeaks_ffmpeg_peaks:
  "peaks (generatePeaks_ffmpeg d samples) =
     map (bucket_value samples
            (max 1 (nat \<lfloor>real (length samples) / real (nat \<lceil>d * real PEAKS_PER_SECOND_ffmpeg\<rceil>)\<rfloor>)))
         [0..<nat \<lceil>d * real PEAKS_PER_SECOND_ffmpeg\<rceil>]"
  by (rule nth_equalityI)
     (simp_all add: generatePeaks_ffmpeg_def Let_def fill_peaks_length fill_peaks_nth)

lemma collect_pairs_map:
  "collect_pairs dat (2 * m) pks = pks @ map (pair_peak dat) [m..<(length dat + 1) div 2]"
proof (induction "length dat - 2 * m" arbitrary: m pks rule: less_induct)
  case less
  show ?case
  proof (cases "2 * m < length dat")
    case True
    have step: "collect_pairs dat (2 * m) pks = collect_pairs dat (2 * Suc m) (pks @ [pair_peak dat m])"
      using True by (subst collect_pairs.simps) (simp add: Let_def pair_peak_def)
    have "collect_pairs dat (2 * Suc m) (pks @ [pair_peak dat m])
        = (pks @ [pair_peak dat m]) @ map (pair_peak dat) [Suc m..<(length dat + 1) div 2]"
      using True by (intro less) auto
    moreover have "m < (length dat + 1) div 2" using True by linarith
    ultimately show ?thesis using step by (simp add: upt_conv_Cons)
  next
    case False
    then have "\<not> m < (length dat + 1) div 2" by linarith
    with False show ?thesis by (subst collect_pairs.simps) simp
  qed
qed

lemma generatePeaks_audiowaveform_peaks:
  "peaks (generatePeaks_audiowaveform w) = map (pair_peak (data w)) [0..<(length (data w) + 1) div 2]"
  using collect_pairs_map[of "data w" 0 "[]"] by (simp add: generatePeaks_audiowaveform_def Let_def)

subsection \<open>Quantisation and range of single values\<close>

lemma round4_Finite: "round4 (Finite x) = Finite (of_int \<lfloor>x * 10000 + 1 / 2\<rfloor> / 10000)"
  by (simp add: round4_def)

lemma round4_unit:
  assumes "0 \<le> x" "x \<le> 1"
  shows "in_unit_interval (round4 (Finite x))"
proof -
  have lo: "0 \<le> \<lfloor>x * 10000 + 1 / 2\<rfloor>" using assms(1) by simp
  have "x * 10000 + 1 / 2 < 10001" using assms(2) by simp
  then have "\<lfloor>x * 10000 + 1 / 2\<rfloor> < 10001" by (simp add: floor_less_iff)
  then have hi: "\<lfloor>x * 10000 + 1 / 2\<rfloor> \<le> 10000" by simp
  have "real_of_int \<lfloor>x * 10000 + 1 / 2\<rfloor> \<le> 10000" using hi by linarith
  moreover have "0 \<le> real_of_int \<lfloor>x * 10000 + 1 / 2\<rfloor>" using lo by linarith
  ultimately show ?thesis by (simp add: round4_Finite)
qed

lemma round4_multiple: "multiple_of_1e4 (round4 (Finite x))"
  by (simp add: round4_Finite)

lemma spec_window_max_bounds:
  assumes "\<forall>s \<in> set samples. \<bar>s\<bar> \<le> 1"
  shows "0 \<le> spec_window_max samples spp i \<and> spec_window_max samples spp i \<le> 1"
proof -
  let ?lo = "i * spp"
  let ?hi = "min ((i + 1) * spp) (length samples)"
  let ?S = "(\<lambda>j. \<bar>samples ! j\<bar>) ` {?lo..<?hi}"
  show ?thesis
  proof (cases "?hi \<le> ?lo")
    case True
    then show ?thesis by (simp add: spec_window_max_def Let_def)
  next
    case False
    then have lt: "?lo < ?hi" by linarith
    have ne: "?S \<noteq> {}" using lt by (simp del: min_less_iff_conj)
    have fin: "finite ?S" by simp
    have all: "\<forall>a \<in> ?S. 0 \<le> a \<and> a \<le> 1"
    proof
      fix a assume "a \<in> ?S"
      then obtain j where j: "j < length samples" "a = \<bar>samples ! j\<bar>" by auto
      then have "samples ! j \<in> set samples" by simp
      with assms j show "0 \<le> a \<and> a \<le> 1" by auto
    qed
    have "Max ?S \<in> ?S" using fin ne by (rule Max_in)
    with all have "0 \<le> Max ?S \<and> Max ?S \<le> 1" by blast
    with False show ?thesis by (simp add: spec_window_max_def Let_def)
  qed
qed

lemma pair_peak_complete:
  assumes "2 * k + 1 < length dat"
  shows "pair_peak dat k = round4 (Finite (max \<bar>dat ! (2 * k)\<bar> \<bar>dat ! (2 * k + 1)\<bar> / 128))"
  using assms by (simp add: pair_peak_def array_get_def)

lemma pair_peak_incomplete:
  assumes "2 * k + 1 = length dat"
  shows "pair_peak dat k = NaN"
  using assms by (simp add: pair_peak_def array_get_def round4_def)

lemma audiowaveform_peaks_length:
  "length (peaks (generatePeaks_audiowaveform w)) = (length (data w) + 1) div 2"
  by (simp add: generatePeaks_audiowaveform_peaks)

lemma audiowaveform_odd_tail:
  assumes "odd (length (data w))"
  shows "length (peaks (generatePeaks_audiowaveform w)) = length (data w) div 2 + 1
       \<and> last (peaks (generatePeaks_audiowaveform w)) = NaN"
proof -
  let ?n = "length (data w)"
  obtain m where m: "?n = 2 * m + 1" using assms by (auto elim: oddE)
  have len: "(?n + 1) div 2 = Suc m" using m by simp
  have "peaks (generatePeaks_audiowaveform w) = map (pair_peak (data w)) [0..<Suc m]"
    by (simp only: generatePeaks_audiowaveform_peaks len)
  moreover have "pair_peak (data w) m = NaN" using m by (intro pair_peak_incomplete) simp
  ultimately show ?thesis using m by simp
qed

lemma ffmpeg_peaks_multiple:
  "list_all multiple_of_1e4 (peaks (generatePeaks_ffmpeg d samples))"
  by (simp add: generatePeaks_ffmpeg_peaks list_all_iff bucket_value_window round4_multiple)

lemma audiowaveform_even_peaks_multiple:
  assumes "even (length (data w))"
  shows "list_all multiple_of_1e4 (peaks (generatePeaks_audiowaveform w))"
proof -
  have "multiple_of_1e4 (pair_peak (data w) k)" if "k < (length (data w) + 1) div 2" for k
  proof -
    have "2 * k + 1 < length (data w)" using that assms by (auto elim!: evenE)
    then show ?thesis by (simp add: pair_peak_complete round4_multiple)
  qed
  then show ?thesis by (simp add: generatePeaks_audiowaveform_peaks list_all_iff)
qed

subsection \<open>Claims about the peaks artifact\<close>





text \<open>
  C2 (as amended). Every element of the peaks array lies in \<open>[0, 1]\<close> after the four-decimal
  rounding, under both decode strategies, when the input is in range: raw-PCM samples of
  absolute value at most 1, and extrema-pair data of even length whose values are signed
  8-bit values (\<open>-128\<close> to \<open>127\<close>).
\<close>

theorem peaks_in_unit_interval_for_bounded_input:
  "(0 < d \<and> list_all (\<lambda>s. \<bar>s\<bar> \<le> 1) samples
      \<longrightarrow> list_all in_unit_interval (peaks (generatePeaks_ffmpeg d samples)))
   \<and> (even (length (data w)) \<and> list_all (\<lambda>v. - 128 \<le> v \<and> v \<le> 127) (data w)
      \<longrightarrow> list_all in_unit_interval (peaks (generatePeaks_audiowaveform w)))"
proof (intro conjI impI)
  assume "0 < d \<and> list_all (\<lambda>s. \<bar>s\<bar> \<le> 1) samples"
  then have b: "\<forall>s \<in> set samples. \<bar>s\<bar> \<le> 1" by (simp add: list_all_iff)
  have "in_unit_interval (bucket_value samples spp k)" for spp k
    using spec_window_max_bounds[OF b, of spp k] by (simp add: bucket_value_window round4_unit)
  then show "list_all in_unit_interval (peaks (generatePeaks_ffmpeg d samples))"
    by (simp add: generatePeaks_ffmpeg_peaks list_all_iff)
next
  assume h: "even (length (data w)) \<and> list_all (\<lambda>v. - 128 \<le> v \<and> v \<le> 127) (data w)"
  then have b: "\<forall>v \<in> set (data w). \<bar>v\<bar> \<le> 128" by (auto simp: list_all_iff)
  have "in_unit_interval (pair_peak (data w) k)" if "k < (length (data w) + 1) div 2" for k
  proof -
    have r: "2 * k + 1 < length (data w)" using that h by (auto elim!: evenE)
    then have "data w ! (2 * k) \<in> set (data w)" "data w ! (2 * k + 1) \<in> set (data w)"
      by simp_all
    with b have "\<bar>data w ! (2 * k)\<bar> \<le> 128" "\<bar>data w ! (2 * k + 1)\<bar> \<le> 128" by blast+
    then have "0 \<le> max \<bar>data w ! (2 * k)\<bar> \<bar>data w ! (2 * k + 1)\<bar> / 128"
      "max \<bar>data w ! (2 * k)\<bar> \<bar>data w ! (2 * k + 1)\<bar> / 128 \<le> 1" by simp_all
    then show ?thesis by (simp only: pair_peak_complete[OF r] round4_unit)
  qed
  then show "list_all in_unit_interval (peaks (generatePeaks_audiowaveform w))"
    by (simp add: generatePeaks_audiowaveform_peaks list_all_iff)
qed

text \<open>The theorem at six samples within \<open>[-1, 1]\<close> and at two complete extrema pairs.\<close>

theorem peaks_in_unit_interval_for_bounded_input_witness:
  "list_all in_unit_interval (peaks (generatePeaks_ffmpeg (3 / 100) [1 / 10, - 1 / 2, 3 / 10, 7 / 10, 1, - 1]))
   \<and> list_all in_unit_interval
        (peaks (generatePeaks_audiowaveform
           \<lparr> version = 2, channels = 1, sample_rate = 44100, samples_per_pixel = 882, bits = 8,
             waveform_length = 2, data = [- 128, 127, - 3, 64] \<rparr>))"
proof -
  let ?xs = "[1 / 10, - 1 / 2, 3 / 10, 7 / 10, 1, - 1] :: real list"
  let ?w = "\<lparr> version = 2, channels = 1, sample_rate = 44100, samples_per_pixel = 882, bits = 8,
             waveform_length = 2, data = [- 128, 127, - 3, 64] \<rparr>"
  note t = peaks_in_unit_interval_for_bounded_input [of "3 / 100" ?xs ?w]
  have h1: "(0::real) < 3 / 100 \<and> list_all (\<lambda>s. \<bar>s\<bar> \<le> 1) ?xs" by simp
  have h2: "even (length (data ?w)) \<and> list_all (\<lambda>v. - 128 \<le> v \<and> v \<le> 127) (data ?w)" by simp
  from t h1 h2 show ?thesis by blast
qed

text \<open>
  C2 as stated, for any sample amplitude, fails: neither variant clamps, so the single
  sample \<open>2\<close> over \<open>d = 0.01\<close> gives the peak \<open>2\<close>.
\<close>

theorem ffmpeg_peak_above_one:
  "peaks (generatePeaks_ffmpeg (1 / 100) [2]) = [Finite 2]
   \<and> \<not> list_all in_unit_interval (peaks (generatePeaks_ffmpeg (1 / 100) [2]))"
proof -
  have a: "peaks (generatePeaks_ffmpeg (1 / 100) [2]) = [Finite 2]" by code_simp
  show ?thesis unfolding a by simp
qed

text \<open>
  C3 (not met by the code). The claim: for a data array of odd length \<open>n\<close> the loop
  processes exactly \<open>\<lfloor>n / 2\<rfloor>\<close> pairs, drops the incomplete one and never reads past the
  end; for \<open>n = 5\<close> the peaks array has 2 entries. The loop of the code runs for
  \<open>i = 0, 2, 4\<close>: at \<open>i = 4\<close> it reads index 5, which is past the end, and pushes a third
  entry, \<open>NaN\<close>. (In general, \<open>audiowaveform_odd_tail\<close>.)
\<close>

theorem odd_data_length_yields_extra_NaN_peak:
  "peaks (generatePeaks_audiowaveform
     \<lparr> version = 2, channels = 1, sample_rate = 44100, samples_per_pixel = 882, bits = 8,
       waveform_length = 3, data = [- 128, 127, - 64, 64, 5] \<rparr>) = [Finite 1, Finite (1 / 2), NaN]
   \<and> length_field (generatePeaks_audiowaveform
     \<lparr> version = 2, channels = 1, sample_rate = 44100, samples_per_pixel = 882, bits = 8,
       waveform_length = 3, data = [- 128, 127, - 64, 64, 5] \<rparr>) = 3
   \<and> array_get [- 128, 127, - 64, 64, 5 :: real] 5 = None"
  by code_simp

text \<open>
  C4. Every artifact returned by either variant of \<^verbatim>\<open>generatePeaks\<close> has its \<^verbatim>\<open>length\<close> field
  equal to the number of elements of its peaks array.
\<close>

theorem artifact_length_field:
  "length_field (generatePeaks_ffmpeg d samples) = length (peaks (generatePeaks_ffmpeg d samples))
   \<and> length_field (generatePeaks_audiowaveform w) = length (peaks (generatePeaks_audiowaveform w))"
  by (simp add: generatePeaks_ffmpeg_def generatePeaks_audiowaveform_def Let_def)

text \<open>
  C10 (not met by the code). The claim: every element of the peaks array of either
  variant is an integer multiple of \<open>1/10000\<close>. It holds for the ffmpeg variant
  (\<open>ffmpeg_peaks_multiple\<close>) and for extrema data of even length
  (\<open>audiowaveform_even_peaks_multiple\<close>); for data of odd length the last element
  is \<open>NaN\<close>, by the read past the end that C3 is about.
\<close>

theorem odd_data_length_peak_not_multiple:
  "peaks (generatePeaks_audiowaveform
     \<lparr> version = 2, channels = 1, sample_rate = 44100, samples_per_pixel = 882, bits = 8,
       waveform_length = 2, data = [10, - 20, 30] \<rparr>) = [Finite (1563 / 10000), NaN]
   \<and> \<not> list_all multiple_of_1e4 (peaks (generatePeaks_audiowaveform
     \<lparr> version = 2, channels = 1, sample_rate = 44100, samples_per_pixel = 882, bits = 8,
       waveform_length = 2, data = [10, - 20, 30] \<rparr>))"
  by code_simp

section \<open>Properties of the service worker\<close>

text \<open>
  An authentication request is forwarded to the network and leaves the caches as they are
  when the listener reaches the authentication branch, that is, when the request is neither
  an audio request nor a static asset.
\<close>

lemma auth_request_forwarded_when_reached:
  assumes "request_method request = ''GET''" "prefix ''http'' (protocol (request_url request))"
    and "isAuthRequest request" "\<not> isAudioRequest request" "\<not> isStaticAsset request"
  shows "fetch_listener True fetch cs request = (RespondWith (fetch request), cs)"
  using assms by (simp add: fetch_listener_def)

text \<open>
  C8 (not met by the code). The claim: in production mode every GET request whose
  path starts with \<^verbatim>\<open>/api/auth/\<close> is forwarded live and its response is never stored in a
  cache, whatever its file extension or accept header, authentication being first in the
  priority order. The listener tests audio and static assets before authentication: the
  response to \<^verbatim>\<open>GET /api/auth/providers.js\<close> is stored in the static cache and the next
  such request is answered from the cache, not the network; the response to
  \<^verbatim>\<open>GET /api/auth/session\<close> with the accept header \<^verbatim>\<open>audio/*\<close> is stored in the audio cache.
\<close>

theorem auth_request_with_static_extension_is_cached:
  "isAuthRequest
     \<lparr> request_method = ''GET'',
       request_url = \<lparr> protocol = ''https:'', host = ''example.org'',
                       pathname = ''/api/auth/providers.js'', search = '''' \<rparr>,
       accept = None \<rparr>
   \<and> fetch_listener True (\<lambda>r. Some \<lparr> status = 200, body = ''signed in'' \<rparr>) []
     \<lparr> request_method = ''GET'',
       request_url = \<lparr> protocol = ''https:'', host = ''example.org'',
                       pathname = ''/api/auth/providers.js'', search = '''' \<rparr>,
       accept = None \<rparr>
     = (RespondWith (Some \<lparr> status = 200, body = ''signed in'' \<rparr>),
        [(STATIC_CACHE_NAME,
          [(\<lparr> protocol = ''https:'', host = ''example.org'',
              pathname = ''/api/auth/providers.js'', search = '''' \<rparr>,
            \<lparr> status = 200, body = ''signed in'' \<rparr>)])])
   \<and> fetch_listener True (\<lambda>r. Some \<lparr> status = 200, body = ''signed out'' \<rparr>)
       [(STATIC_CACHE_NAME,
          [(\<lparr> protocol = ''https:'', host = ''example.org'',
              pathname = ''/api/auth/providers.js'', search = '''' \<rparr>,
            \<lparr> status = 200, body = ''signed in'' \<rparr>)])]
     \<lparr> request_method = ''GET'',
       request_url = \<lparr> protocol = ''https:'', host = ''example.org'',
                       pathname = ''/api/auth/providers.js'', search = '''' \<rparr>,
       accept = None \<rparr>
     = (RespondWith (Some \<lparr> status = 200, body = ''signed in'' \<rparr>),
        [(STATIC_CACHE_NAME,
          [(\<lparr> protocol = ''https:'', host = ''example.org'',
              pathname = ''/api/auth/providers.js'', search = '''' \<rparr>,
            \<lparr> status = 200, body = ''signed in'' \<rparr>)])])
   \<and> fetch_listener True (\<lambda>r. Some \<lparr> status = 200, body = ''session'' \<rparr>) []
     \<lparr> request_method = ''GET'',
       request_url = \<lparr> protocol = ''https:'', host = ''example.org'',
                       pathname = ''/api/auth/session'', search = '''' \<rparr>,
       accept = Some ''audio/*'' \<rparr>
     = (RespondWith (Some \<lparr> status = 200, body = ''session'' \<rparr>),
        [(AUDIO_CACHE_NAME,
          [(\<lparr> protocol = ''https:'', host = ''example.org'',
              pathname = ''/api/auth/session'', search = '''' \<rparr>,
            \<lparr> status = 200, body = ''session'' \<rparr>)])])"
  by code_simp

text \<open>
  C9. The listener intercepts only GET requests over http(s): a request with another method,
  or whose protocol does not start with \<^verbatim>\<open>http\<close>, is left to the browser
  (no \<^verbatim>\<open>respondWith\<close>), and the cache storage is unchanged, in either mode.
\<close>

theorem fetch_listener_skips_non_GET_and_non_http:
  assumes "request_method request \<noteq> ''GET'' \<or> \<not> prefix ''http'' (protocol (request_url request))"
  shows "fetch_listener isProduction fetch cs request = (NotIntercepted, cs)"
  using assms by (auto simp: fetch_listener_def)

text \<open>The theorem at a POST to the upload endpoint and at a GET of a browser extension's file.\<close>

theorem fetch_listener_skips_non_GET_and_non_http_witness:
  "fetch_listener True (\<lambda>r. Some \<lparr> status = 200, body = ''created'' \<rparr>)
       [(CACHE_NAME, [])]
       \<lparr> request_method = ''POST'',
         request_url = \<lparr> protocol = ''https:'', host = ''example.org'',
                         pathname = ''/api/upload'', search = '''' \<rparr>,
         accept = None \<rparr>
     = (NotIntercepted, [(CACHE_NAME, [])])
   \<and> fetch_listener True (\<lambda>r. Some \<lparr> status = 200, body = ''icon'' \<rparr>)
       [(CACHE_NAME, [])]
       \<lparr> request_method = ''GET'',
         request_url = \<lparr> protocol = ''chrome-extension:'', host = ''abcdef'',
                         pathname = ''/icon.png'', search = '''' \<rparr>,
         accept = None \<rparr>
     = (NotIntercepted, [(CACHE_NAME, [])])"
proof -
  let ?post = "\<lparr> request_method = ''POST'',
         request_url = \<lparr> protocol = ''https:'', host = ''example.org'',
                         pathname = ''/api/upload'', search = '''' \<rparr>,
         accept = None \<rparr>"
  let ?ext = "\<lparr> request_method = ''GET'',
         request_url = \<lparr> protocol = ''chrome-extension:'', host = ''abcdef'',
                         pathname = ''/icon.png'', search = '''' \<rparr>,
         accept = None \<rparr>"
  have h1: "request_method ?post \<noteq> ''GET'' \<or> \<not> prefix ''http'' (protocol (request_url ?post))"
    by simp
  have h2: "request_method ?ext \<noteq> ''GET'' \<or> \<not> prefix ''http'' (protocol (request_url ?ext))"
    by simp
  show ?thesis
    using fetch_listener_skips_non_GET_and_non_http [OF h1]
          fetch_listener_skips_non_GET_and_non_http [OF h2]
    by simp
qed

section \<open>Properties of the routes\<close>

lemma serve_peaks_status: "http_status (serve_peaks env) = 200 \<or> http_status (serve_peaks env) = 500"
  by (simp add: serve_peaks_def text_response_def split: awaited.split)

text \<open>
  C5. A GET of the peaks of an audio that is not public, with no session, is answered 401
  when \<^verbatim>\<open>REQUIRE_AUTH_FOR_PUBLIC_CONTENT\<close> is set and 403 when it is not, never 200. A request
  by the owner, or for a public audio (with a session when the flag is set), is not
  rejected by the access check: its status is neither 401 nor 403.
\<close>

theorem peaks_access_check:
  "(auth_result env = Resolved None \<and> findUnique_result env = Resolved (Some audio) \<and> \<not> isPublic audio
      \<longrightarrow> http_status (GET_peaks env) = (if REQUIRE_AUTH_FOR_PUBLIC_CONTENT env then 401 else 403)
          \<and> http_status (GET_peaks env) \<noteq> 200)
   \<and> (auth_result env = Resolved session \<and> findUnique_result env = Resolved (Some audio)
        \<and> (isCreator session (createdById audio)
             \<or> isPublic audio \<and> (REQUIRE_AUTH_FOR_PUBLIC_CONTENT env \<longrightarrow> session \<noteq> None))
      \<longrightarrow> http_status (GET_peaks env) \<noteq> 401 \<and> http_status (GET_peaks env) \<noteq> 403)"
proof (intro conjI impI)
  assume h: "auth_result env = Resolved None \<and> findUnique_result env = Resolved (Some audio) \<and> \<not> isPublic audio"
  then have st: "http_status (GET_peaks env) = (if REQUIRE_AUTH_FOR_PUBLIC_CONTENT env then 401 else 403)"
    by (simp add: GET_peaks_def isCreator_def text_response_def)
  then show "http_status (GET_peaks env) = (if REQUIRE_AUTH_FOR_PUBLIC_CONTENT env then 401 else 403)" .
  from st show "http_status (GET_peaks env) \<noteq> 200" by (simp split: if_splits)
next
  assume h: "auth_result env = Resolved session \<and> findUnique_result env = Resolved (Some audio)
        \<and> (isCreator session (createdById audio)
             \<or> isPublic audio \<and> (REQUIRE_AUTH_FOR_PUBLIC_CONTENT env \<longrightarrow> session \<noteq> None))"
  have own: "session \<noteq> None" if "isCreator session (createdById audio)"
    using that by (auto simp: isCreator_def split: option.splits)
  from h own have pass: "\<not> (REQUIRE_AUTH_FOR_PUBLIC_CONTENT env \<and> session = None)"
    "isPublic audio \<or> isCreator session (createdById audio)" by auto
  have "http_status (GET_peaks env) \<in> {200, 404, 500}"
    using h pass serve_peaks_status[of env]
    by (auto simp: GET_peaks_def text_response_def)
  then show "http_status (GET_peaks env) \<noteq> 401" "http_status (GET_peaks env) \<noteq> 403" by auto
qed

text \<open>
  The theorem at four requests: anonymous for a private audio with the flag set and unset,
  the owner for a private audio, anonymous for a public audio with the flag unset.
\<close>

theorem peaks_access_check_witness:
  "http_status (GET_peaks \<lparr> auth_result = Resolved None,
       findUnique_result = Resolved (Some \<lparr> filePath = ''a1.mp3'', isPublic = False, createdById = ''alice'' \<rparr>),
       REQUIRE_AUTH_FOR_PUBLIC_CONTENT = True, peaks_file_exists = True, audio_file_exists = True,
       generate_ok = True, readFile_result = Resolved ''{}'' \<rparr>) = 401
   \<and> http_status (GET_peaks \<lparr> auth_result = Resolved None,
       findUnique_result = Resolved (Some \<lparr> filePath = ''a1.mp3'', isPublic = False, createdById = ''alice'' \<rparr>),
       REQUIRE_AUTH_FOR_PUBLIC_CONTENT = False, peaks_file_exists = True, audio_file_exists = True,
       generate_ok = True, readFile_result = Resolved ''{}'' \<rparr>) = 403
   \<and> http_status (GET_peaks \<lparr> auth_result = Resolved (Some \<lparr> user = Some \<lparr> user_id = ''alice'' \<rparr> \<rparr>),
       findUnique_result = Resolved (Some \<lparr> filePath = ''a1.mp3'', isPublic = False, createdById = ''alice'' \<rparr>),
       REQUIRE_AUTH_FOR_PUBLIC_CONTENT = True, peaks_file_exists = True, audio_file_exists = True,
       generate_ok = True, readFile_result = Resolved ''{}'' \<rparr>) \<noteq> 403
   \<and> http_status (GET_peaks \<lparr> auth_result = Resolved None,
       findUnique_result = Resolved (Some \<lparr> filePath = ''a2.mp3'', isPublic = True, createdById = ''alice'' \<rparr>),
       REQUIRE_AUTH_FOR_PUBLIC_CONTENT = False, peaks_file_exists = True, audio_file_exists = True,
       generate_ok = True, readFile_result = Resolved ''{}'' \<rparr>) \<noteq> 403"
proof -
  let ?priv = "\<lparr> filePath = ''a1.mp3'', isPublic = False, createdById = ''alice'' \<rparr>"
  let ?pub = "\<lparr> filePath = ''a2.mp3'', isPublic = True, createdById = ''alice'' \<rparr>"
  let ?alice = "Some \<lparr> user = Some \<lparr> user_id = ''alice'' \<rparr> \<rparr>"
  let ?env = "\<lambda>s a flag. \<lparr> auth_result = Resolved s, findUnique_result = Resolved (Some a),
       REQUIRE_AUTH_FOR_PUBLIC_CONTENT = flag, peaks_file_exists = True, audio_file_exists = True,
       generate_ok = True, readFile_result = Resolved ''{}'' \<rparr>"
  have a: "http_status (GET_peaks (?env None ?priv True)) = 401"
    using peaks_access_check [of "?env None ?priv True" ?priv None] by simp
  have b: "http_status (GET_peaks (?env None ?priv False)) = 403"
    using peaks_access_check [of "?env None ?priv False" ?priv None] by simp
  have c: "http_status (GET_peaks (?env ?alice ?priv True)) \<noteq> 403"
    using peaks_access_check [of "?env ?alice ?priv True" ?priv ?alice] by (simp add: isCreator_def)
  have d: "http_status (GET_peaks (?env None ?pub False)) \<noteq> 403"
    using peaks_access_check [of "?env None ?pub False" ?pub None] by simp
  from a b c d show ?thesis by simp
qed

text \<open>
  C6. For an upload that passes the validation (and whose file is saved and whose row the
  database creates), whether or not \<^verbatim>\<open>replaceWithCbrMp3\<close> and \<^verbatim>\<open>generateAndSavePeaks\<close> throw,
  the handler creates the audio row and answers \<^verbatim>\<open>{success: true, id}\<close> with the new
  identifier.
\<close>

theorem upload_succeeds_despite_auxiliary_failures:
  assumes "upload_auth_result env = Resolved session"
    and "session_user_id session = Some userId"
    and "formData_result env = Resolved formData"
    and "form_name formData = Some name" and "name \<noteq> []"
    and "form_file formData = Some file"
    and "file_size file \<le> maxSize"
    and "toLowerCase (path_extname (file_name file)) = ''.mp3''"
    and "writeFile_ok env" and "create_ok env"
  shows "fst (POST_upload (env \<lparr> replaceWithCbrMp3_ok := reencoded, generateAndSavePeaks_ok := generated \<rparr>))
           = json_response (SuccessJson True (uuid env)) 200
       \<and> CreateAudio \<lparr> row_id = uuid env, row_name = name,
                        row_description = form_description formData,
                        row_originalFileName = file_name file,
                        row_filePath = uuid env @ ''.mp3'',
                        row_createdById = userId \<rparr>
           \<in> set (snd (POST_upload (env \<lparr> replaceWithCbrMp3_ok := reencoded,
                                          generateAndSavePeaks_ok := generated \<rparr>)))"
  using assms by (simp add: POST_upload_def store_upload_def Let_def)

text \<open>The theorem at an upload where both auxiliary steps throw: two warnings, then the row.\<close>

theorem upload_succeeds_despite_auxiliary_failures_witness:
  "POST_upload
     \<lparr> upload_auth_result = Resolved (Some \<lparr> user = Some \<lparr> user_id = ''alice'' \<rparr> \<rparr>),
       formData_result = Resolved \<lparr> form_name = Some ''Demo'', form_description = None,
           form_file = Some \<lparr> file_name = ''take.MP3'', file_size = 3, file_bytes = [73, 68, 51] \<rparr> \<rparr>,
       uuid = ''u1'', cwd = ''/srv/app'', writeFile_ok = True,
       replaceWithCbrMp3_ok = False, generateAndSavePeaks_ok = False, create_ok = True \<rparr>
   = (json_response (SuccessJson True ''u1'') 200,
      [WriteFile ''/srv/app/data/uploads/u1.mp3'' [73, 68, 51],
       ReplaceWithCbrMp3 ''/srv/app/data/uploads/u1.mp3'',
       ConsoleWarn ''CBR re-encode failed (non-fatal):'',
       GenerateAndSavePeaks ''/srv/app/data/uploads/u1.mp3'',
       ConsoleWarn ''Peak generation failed (non-fatal):'',
       CreateAudio \<lparr> row_id = ''u1'', row_name = ''Demo'', row_description = None,
                     row_originalFileName = ''take.MP3'', row_filePath = ''u1.mp3'',
                     row_createdById = ''alice'' \<rparr>])"
proof -
  let ?file = "\<lparr> file_name = ''take.MP3'', file_size = 3, file_bytes = [73, 68, 51] \<rparr>"
  let ?form = "\<lparr> form_name = Some ''Demo'', form_description = None, form_file = Some ?file \<rparr>"
  let ?session = "Some \<lparr> user = Some \<lparr> user_id = ''alice'' \<rparr> \<rparr>"
  let ?env = "\<lparr> upload_auth_result = Resolved ?session, formData_result = Resolved ?form,
       uuid = ''u1'', cwd = ''/srv/app'', writeFile_ok = True,
       replaceWithCbrMp3_ok = False, generateAndSavePeaks_ok = False, create_ok = True \<rparr>"
  have ext: "toLowerCase (path_extname ''take.MP3'') = ''.mp3''" by code_simp
  have size: "3 \<le> maxSize" by (simp add: maxSize_def)
  have uid: "session_user_id ?session = Some ''alice''" by (simp add: session_user_id_def)
  have t: "fst (POST_upload (?env \<lparr> replaceWithCbrMp3_ok := False, generateAndSavePeaks_ok := False \<rparr>))
           = json_response (SuccessJson True (uuid ?env)) 200
       \<and> CreateAudio \<lparr> row_id = uuid ?env, row_name = ''Demo'',
                        row_description = form_description ?form,
                        row_originalFileName = file_name ?file,
                        row_filePath = uuid ?env @ ''.mp3'',
                        row_createdById = ''alice'' \<rparr>
           \<in> set (snd (POST_upload (?env \<lparr> replaceWithCbrMp3_ok := False,
                                          generateAndSavePeaks_ok := False \<rparr>)))"
    by (rule upload_succeeds_despite_auxiliary_failures [where session = ?session and formData = ?form])
       (simp_all add: uid ext size)
  have p: "path_join (path_join (path_join ''/srv/app'' ''data'') ''uploads'') ''u1.mp3''
      = ''/srv/app/data/uploads/u1.mp3''"
    by (simp add: path_join_def)
  have e: "snd (POST_upload ?env) =
      [WriteFile ''/srv/app/data/uploads/u1.mp3'' [73, 68, 51],
       ReplaceWithCbrMp3 ''/srv/app/data/uploads/u1.mp3'',
       ConsoleWarn ''CBR re-encode failed (non-fatal):'',
       GenerateAndSavePeaks ''/srv/app/data/uploads/u1.mp3'',
       ConsoleWarn ''Peak generation failed (non-fatal):'',
       CreateAudio \<lparr> row_id = ''u1'', row_name = ''Demo'', row_description = None,
                     row_originalFileName = ''take.MP3'', row_filePath = ''u1.mp3'',
                     row_createdById = ''alice'' \<rparr>]"
    using size
    by (simp add: POST_upload_def store_upload_def session_user_id_def ext p Let_def)
  from t have "fst (POST_upload ?env) = json_response (SuccessJson True ''u1'') 200" by simp
  with e show ?thesis by (simp add: prod_eq_iff)
qed

section \<open>Properties of the path functions\<close>

lemma path_basename_no_slash: "CHR ''/'' \<notin> set (path_basename p)"
proof
  assume "CHR ''/'' \<in> set (path_basename p)"
  then have "CHR ''/'' \<in> set (takeWhile (\<lambda>c. c \<noteq> CHR ''/'') (rev p))"
    by (simp add: path_basename_def)
  then show False by (auto dest: set_takeWhileD)
qed

lemma path_basename_subset: "set (path_basename p) \<subseteq> set p"
  using set_takeWhileD[of _ "\<lambda>c. c \<noteq> CHR ''/''" "rev p"] by (auto simp: path_basename_def)

lemma path_basename_plain:
  assumes "CHR ''/'' \<notin> set f"
  shows "path_basename f = f"
proof -
  have "takeWhile (\<lambda>c. c \<noteq> CHR ''/'') (rev f) = rev f"
    using assms by (intro takeWhile_eq_all_conv[THEN iffD2]) auto
  then show ?thesis by (simp only: path_basename_def rev_rev_ident)
qed

lemma path_basename_append_slash:
  assumes "CHR ''/'' \<notin> set f"
  shows "path_basename (d @ ''/'' @ f) = f"
proof -
  have "rev (d @ ''/'' @ f) = rev f @ CHR ''/'' # rev d" by simp
  moreover have "takeWhile (\<lambda>c. c \<noteq> CHR ''/'') (rev f @ CHR ''/'' # rev d) = rev f"
    using assms by (subst takeWhile_append2) auto
  ultimately show ?thesis by (simp only: path_basename_def rev_rev_ident)
qed

lemma path_basename_join:
  assumes "CHR ''/'' \<notin> set f"
  shows "path_basename (path_join d f) = f"
proof (cases "d = []")
  case True
  then show ?thesis using assms by (simp add: path_join_def path_basename_plain)
next
  case False
  show ?thesis
  proof (cases "last d = CHR ''/''")
    case True
    then have "d = butlast d @ ''/''" using False by (metis append_butlast_last_id)
    then have "d @ f = butlast d @ ''/'' @ f" by (metis append.assoc)
    moreover have "path_join d f = d @ f" using False True by (simp add: path_join_def)
    ultimately have "path_join d f = butlast d @ ''/'' @ f" by (rule back_subst[where P="\<lambda>x. path_join d f = x", rotated])
    then show ?thesis by (simp only: path_basename_append_slash[OF assms])
  next
    case nl: False
    then have "path_join d f = d @ ''/'' @ f" using False by (simp add: path_join_def)
    then show ?thesis by (simp only: path_basename_append_slash[OF assms])
  qed
qed

lemma takeWhile_length_less:
  assumes "x \<in> set xs" "\<not> P x"
  shows "length (takeWhile P xs) < length xs"
proof -
  have "takeWhile P xs \<noteq> xs" using assms by (auto simp: takeWhile_eq_all_conv)
  moreover have "length (takeWhile P xs) \<le> length xs" by (rule length_takeWhile_le)
  moreover have "takeWhile P xs @ dropWhile P xs = xs" by simp
  ultimately show ?thesis
    by (metis append_eq_conv_conj le_neq_implies_less take_all_iff order_refl)
qed

lemma path_extname_length: "length (path_extname p) \<le> length (path_basename p)"
proof (cases "path_basename p = ''..'' \<or> CHR ''.'' \<notin> set (tl (path_basename p))")
  case True
  then show ?thesis by (simp add: path_extname_def)
next
  case False
  then have "CHR ''.'' \<in> set (rev (path_basename p))" by (cases "path_basename p") auto
  then have "length (takeWhile (\<lambda>c. c \<noteq> CHR ''.'') (rev (path_basename p))) < length (rev (path_basename p))"
    by (rule takeWhile_length_less) simp
  with False show ?thesis by (simp add: path_extname_def Let_def)
qed

lemma path_extname_chars: "set (path_extname p) \<subseteq> insert CHR ''.'' (set (path_basename p))"
  using set_takeWhileD[of _ "\<lambda>c. c \<noteq> CHR ''.''" "rev (path_basename p)"]
  by (auto simp: path_extname_def Let_def)

lemma cbr_temp_path_basename:
  "path_basename (cbr_temp_path p)
     = take (length (path_basename p) - length (path_extname p)) (path_basename p) @ ''-cbr'' @ path_extname p"
proof -
  let ?b = "path_basename p" and ?e = "path_extname p"
  have "CHR ''/'' \<notin> set (take (length ?b - length ?e) ?b)"
    using path_basename_no_slash[of p] by (auto dest: in_set_takeD)
  moreover have "CHR ''/'' \<notin> set ?e"
    using path_extname_chars[of p] path_basename_no_slash[of p] by auto
  ultimately have nosl: "CHR ''/'' \<notin> set (take (length ?b - length ?e) ?b @ ''-cbr'' @ ?e)" by simp
  have "cbr_temp_path p = path_join (path_dirname p) (take (length ?b - length ?e) ?b @ ''-cbr'' @ ?e)"
    by (simp add: cbr_temp_path_def path_parse_def Let_def)
  then show ?thesis by (simp only: path_basename_join[OF nosl])
qed

lemma cbr_temp_path_differs: "cbr_temp_path p \<noteq> p"
proof
  assume eq: "cbr_temp_path p = p"
  have "length (path_basename (cbr_temp_path p)) = length (path_basename p) + 4"
    using path_extname_length[of p] by (simp add: cbr_temp_path_basename)
  with eq show False by simp
qed

section \<open>Properties of the re-encoding\<close>

text \<open>
  C7. \<^verbatim>\<open>replaceWithCbrMp3\<close> replaces the file by this sequence: re-encode to a temporary path
  in the same directory (\<^verbatim>\<open>name-cbr.ext\<close>, never the path of the original), delete the
  original, read the temporary file and write its bytes to the original path, delete the
  temporary file. When the re-encode fails it raises before the delete: the re-encode is
  the only operation run, the contents of the original file are unchanged (and the whole
  file system, if the encoder left no partial output).
\<close>

theorem replaceWithCbrMp3_steps:
  "(ffmpeg (fs file_path) bitrate sampleRateHz = EncodeOk encoded \<and> fs file_path = Some original
      \<longrightarrow> replaceWithCbrMp3 ffmpeg fs file_path bitrate sampleRateHz =
            (Inr (),
             (fs(file_path \<mapsto> encoded))(cbr_temp_path file_path := None),
             [FfmpegReencode file_path (cbr_temp_path file_path),
              FsUnlink file_path,
              FsReadFile (cbr_temp_path file_path),
              FsWriteFile file_path encoded,
              FsUnlink (cbr_temp_path file_path)]))
   \<and> (ffmpeg (fs file_path) bitrate sampleRateHz = EncodeError msg partial
      \<longrightarrow> fst (replaceWithCbrMp3 ffmpeg fs file_path bitrate sampleRateHz)
              = Inl (''ffmpeg re-encode failed: '' @ msg)
          \<and> snd (snd (replaceWithCbrMp3 ffmpeg fs file_path bitrate sampleRateHz))
              = [FfmpegReencode file_path (cbr_temp_path file_path)]
          \<and> fst (snd (replaceWithCbrMp3 ffmpeg fs file_path bitrate sampleRateHz)) file_path
              = fs file_path
          \<and> (partial = None
               \<longrightarrow> fst (snd (replaceWithCbrMp3 ffmpeg fs file_path bitrate sampleRateHz)) = fs))
   \<and> cbr_temp_path file_path \<noteq> file_path
   \<and> path_basename (cbr_temp_path file_path)
       = parsed_name (path_parse file_path) @ ''-cbr'' @ parsed_ext (path_parse file_path)"
proof -
  let ?tmp = "cbr_temp_path file_path"
  let ?run = "replaceWithCbrMp3 ffmpeg fs file_path bitrate sampleRateHz"
  have ne: "?tmp \<noteq> file_path" by (rule cbr_temp_path_differs)
  have ok: "?run = (Inr (), (fs(file_path \<mapsto> encoded))(?tmp := None),
             [FfmpegReencode file_path ?tmp, FsUnlink file_path, FsReadFile ?tmp,
              FsWriteFile file_path encoded, FsUnlink ?tmp])"
    if h: "ffmpeg (fs file_path) bitrate sampleRateHz = EncodeOk encoded \<and> fs file_path = Some original"
  proof -
    have fs_eq: "(((fs(?tmp \<mapsto> encoded))(file_path := None))(file_path \<mapsto> encoded))(?tmp := None)
        = (fs(file_path \<mapsto> encoded))(?tmp := None)"
      using ne by (auto simp: fun_eq_iff)
    from h have h2: "fs file_path = Some original" by blast
    from h have "ffmpeg (fs file_path) bitrate sampleRateHz = EncodeOk encoded" by blast
    then have h1: "ffmpeg (Some original) bitrate sampleRateHz = EncodeOk encoded"
      unfolding h2 .
    show ?thesis
      using h1 h2 ne fs_eq
      by (simp add: replaceWithCbrMp3_def reencodeMp3ToCbr_def Let_def)
  qed
  have bad: "fst ?run = Inl (''ffmpeg re-encode failed: '' @ msg)
      \<and> snd (snd ?run) = [FfmpegReencode file_path ?tmp]
      \<and> fst (snd ?run) file_path = fs file_path
      \<and> (partial = None \<longrightarrow> fst (snd ?run) = fs)"
    if h: "ffmpeg (fs file_path) bitrate sampleRateHz = EncodeError msg partial"
    using h ne
    by (simp add: replaceWithCbrMp3_def reencodeMp3ToCbr_def Let_def split: option.split)
  have base: "path_basename ?tmp
      = parsed_name (path_parse file_path) @ ''-cbr'' @ parsed_ext (path_parse file_path)"
    by (simp add: cbr_temp_path_basename path_parse_def Let_def)
  from ok bad ne base show ?thesis by blast
qed

text \<open>
  The theorem at \<^verbatim>\<open>/data/uploads/a.mp3\<close>, with an encoder that succeeds and with one that
  fails leaving a partial file.
\<close>

theorem replaceWithCbrMp3_steps_witness:
  "cbr_temp_path ''/data/uploads/a.mp3'' = ''/data/uploads/a-cbr.mp3''
   \<and> replaceWithCbrMp3 (\<lambda>input bitrate rate. EncodeOk [255, 251]) [''/data/uploads/a.mp3'' \<mapsto> [73, 68, 51]]
        ''/data/uploads/a.mp3'' 128 44100
     = (Inr (),
        ([''/data/uploads/a.mp3'' \<mapsto> [73, 68, 51]](''/data/uploads/a.mp3'' \<mapsto> [255, 251]))
           (''/data/uploads/a-cbr.mp3'' := None),
        [FfmpegReencode ''/data/uploads/a.mp3'' ''/data/uploads/a-cbr.mp3'',
         FsUnlink ''/data/uploads/a.mp3'',
         FsReadFile ''/data/uploads/a-cbr.mp3'',
         FsWriteFile ''/data/uploads/a.mp3'' [255, 251],
         FsUnlink ''/data/uploads/a-cbr.mp3''])
   \<and> fst (replaceWithCbrMp3 (\<lambda>input bitrate rate. EncodeError ''exit code 1'' (Some [255]))
               [''/data/uploads/a.mp3'' \<mapsto> [73, 68, 51]] ''/data/uploads/a.mp3'' 128 44100)
       = Inl ''ffmpeg re-encode failed: exit code 1''
   \<and> fst (snd (replaceWithCbrMp3 (\<lambda>input bitrate rate. EncodeError ''exit code 1'' (Some [255]))
               [''/data/uploads/a.mp3'' \<mapsto> [73, 68, 51]] ''/data/uploads/a.mp3'' 128 44100))
         ''/data/uploads/a.mp3''
       = Some [73, 68, 51]"
proof -
  let ?fp = "''/data/uploads/a.mp3''"
  let ?fs = "[?fp \<mapsto> [73, 68, 51 :: 8 word]]"
  let ?ok = "\<lambda>(input :: bytes option) (bitrate :: nat) (rate :: nat). EncodeOk [255, 251]"
  let ?bad = "\<lambda>(input :: bytes option) (bitrate :: nat) (rate :: nat). EncodeError ''exit code 1'' (Some [255])"
  have tmp: "cbr_temp_path ?fp = ''/data/uploads/a-cbr.mp3''" by code_simp
  have a: "replaceWithCbrMp3 ?ok ?fs ?fp 128 44100 =
      (Inr (), (?fs(?fp \<mapsto> [255, 251]))(cbr_temp_path ?fp := None),
       [FfmpegReencode ?fp (cbr_temp_path ?fp), FsUnlink ?fp, FsReadFile (cbr_temp_path ?fp),
        FsWriteFile ?fp [255, 251], FsUnlink (cbr_temp_path ?fp)])"
    using replaceWithCbrMp3_steps [of ?ok ?fs ?fp 128 44100 "[255, 251]" "[73, 68, 51]"]
    by simp
  have b: "fst (replaceWithCbrMp3 ?bad ?fs ?fp 128 44100) = Inl (''ffmpeg re-encode failed: '' @ ''exit code 1'')
      \<and> fst (snd (replaceWithCbrMp3 ?bad ?fs ?fp 128 44100)) ?fp = ?fs ?fp"
    using replaceWithCbrMp3_steps [of ?bad ?fs ?fp 128 44100 _ _ "''exit code 1''" "Some [255]"]
    by simp
  from a b show ?thesis unfolding tmp by simp
qed

end
